theory Spec2Isabelle
  imports Complex_Main
begin

section \<open>Swarm operation backend of pyswarms: a shallow embedding\<close>

text \<open>
  The module \<^verbatim>\<open>pyswarms/backend/operators.py\<close> holds five operators over a swarm:
  \<^verbatim>\<open>update_pbest\<close>, \<^verbatim>\<open>update_gbest\<close>, \<^verbatim>\<open>update_gbest_neighborhood\<close>,
  \<^verbatim>\<open>update_velocity\<close> and \<^verbatim>\<open>update_position\<close>.

  Conventions of the embedding.
  \<^item> A numpy vector is a list, a numpy matrix is a list of rows. Floating point numbers
    are read as real numbers: rounding and NaN are outside the model.
  \<^item> An exception of the source is a value \<open>Inl e\<close> of a sum type. The handlers of the
    source only log and re-raise, so an error passes through unchanged.
  \<^item> The elementwise operations are the ones of numpy on operands of equal shape. On
    operands of different shapes numpy broadcasts or raises; the theorems below speak
    about swarms whose arrays agree with \<open>n_particles\<close> and \<open>dimensions\<close>.
  \<^item> The two calls of \<^verbatim>\<open>np.random.uniform\<close> in \<^verbatim>\<open>update_velocity\<close> are made explicit:
    the drawn matrices \<open>r1\<close> and \<open>r2\<close> are arguments.
  \<^item> The nearest-neighbour query of \<^verbatim>\<open>scipy.spatial.cKDTree\<close> is an argument of
    \<^verbatim>\<open>update_gbest_neighborhood\<close>.
\<close>

subsection \<open>Data model\<close>

datatype error = AttributeError | KeyError | IndexError | ValueError

record swarm =
  position :: "real list list"
  velocity :: "real list list"
  n_particles :: nat
  dimensions :: nat
  behavior :: "string \<rightharpoonup> real"
  pbest_pos :: "real list list"
  best_pos :: "real list"
  pbest_cost :: "real list"
  best_cost :: real
  current_cost :: "real list"

text \<open>A matrix of \<open>n\<close> rows and \<open>d\<close> columns.\<close>

definition has_shape :: "'a list list \<Rightarrow> nat \<Rightarrow> nat \<Rightarrow> bool" where
  "has_shape m n d = (length m = n \<and> list_all (\<lambda>row. length row = d) m)"

text \<open>The shape invariant of a swarm: every array agrees with \<open>n_particles\<close> and \<open>dimensions\<close>.\<close>

definition consistent_shapes :: "swarm \<Rightarrow> bool" where
  "consistent_shapes s =
     (has_shape (position s) (n_particles s) (dimensions s) \<and>
      has_shape (velocity s) (n_particles s) (dimensions s) \<and>
      has_shape (pbest_pos s) (n_particles s) (dimensions s) \<and>
      length (best_pos s) = dimensions s \<and>
      length (pbest_cost s) = n_particles s \<and>
      length (current_cost s) = n_particles s)"

subsection \<open>The numpy operations the module uses\<close>

text \<open>\<^verbatim>\<open>np.where(c, x, y)\<close> on vectors and on matrices of one shape.\<close>

definition np_where :: "bool list \<Rightarrow> 'a list \<Rightarrow> 'a list \<Rightarrow> 'a list" where
  "np_where c x y = map (\<lambda>(b, u, v). if b then u else v) (zip c (zip x y))"

definition np_where2 :: "bool list list \<Rightarrow> 'a list list \<Rightarrow> 'a list list \<Rightarrow> 'a list list" where
  "np_where2 c x y = map (\<lambda>(b, u, v). np_where b u v) (zip c (zip x y))"

text \<open>The operator \<^verbatim>\<open>~\<close> on a boolean vector and on a boolean matrix.\<close>

definition np_invert :: "bool list \<Rightarrow> bool list" where
  "np_invert c = map Not c"

definition np_invert2 :: "bool list list \<Rightarrow> bool list list" where
  "np_invert2 c = map np_invert c"

text \<open>\<^verbatim>\<open>np.repeat(v[:, np.newaxis], d, axis=1)\<close>: entry \<open>i\<close> of \<open>v\<close> fills row \<open>i\<close>.\<close>

definition repeat_axis1 :: "'a list \<Rightarrow> nat \<Rightarrow> 'a list list" where
  "repeat_axis1 v d = map (replicate d) v"

text \<open>\<^verbatim>\<open>np.repeat(v[np.newaxis, :], n, axis=0)\<close>: \<open>n\<close> copies of the row \<open>v\<close>.\<close>

definition repeat_axis0 :: "'a list \<Rightarrow> nat \<Rightarrow> 'a list list" where
  "repeat_axis0 v n = replicate n v"

text \<open>
  \<^verbatim>\<open>np.min\<close> and \<^verbatim>\<open>np.argmin\<close> of a vector. Both raise \<^verbatim>\<open>ValueError\<close> on an empty
  vector; \<^verbatim>\<open>np.argmin\<close> returns the first index at which the minimum occurs.
\<close>

fun argmin_from :: "nat \<Rightarrow> real \<Rightarrow> nat \<Rightarrow> real list \<Rightarrow> nat" where
  "argmin_from bi bv i [] = bi"
| "argmin_from bi bv i (x # xs) =
     (if x < bv then argmin_from i x (Suc i) xs else argmin_from bi bv (Suc i) xs)"

fun argmin_list :: "real list \<Rightarrow> nat" where
  "argmin_list [] = 0"
| "argmin_list (x # xs) = argmin_from 0 x (Suc 0) xs"

definition np_min :: "real list \<Rightarrow> error + real" where
  "np_min xs = (case xs of [] \<Rightarrow> Inl ValueError | x # ys \<Rightarrow> Inr (fold min ys x))"

definition np_argmin :: "real list \<Rightarrow> error + nat" where
  "np_argmin xs = (if xs = [] then Inl ValueError else Inr (argmin_list xs))"

text \<open>\<^verbatim>\<open>m.argmin(axis=1)\<close> of a matrix: the argmin of every row.\<close>

definition argmin_axis1 :: "real list list \<Rightarrow> error + nat list" where
  "argmin_axis1 m = (if list_all (\<lambda>row. row \<noteq> []) m then Inr (map argmin_list m) else Inl ValueError)"

text \<open>\<^verbatim>\<open>np.all(m, axis=1)\<close> of a boolean matrix.\<close>

definition all_axis1 :: "bool list list \<Rightarrow> bool list" where
  "all_axis1 m = map (list_all (\<lambda>b. b)) m"

text \<open>Elementwise arithmetic and comparison of two matrices of one shape.\<close>

definition mat_add :: "real list list \<Rightarrow> real list list \<Rightarrow> real list list" where
  "mat_add a b = map2 (map2 (+)) a b"

definition mat_sub :: "real list list \<Rightarrow> real list list \<Rightarrow> real list list" where
  "mat_sub a b = map2 (map2 (-)) a b"

definition mat_mult :: "real list list \<Rightarrow> real list list \<Rightarrow> real list list" where
  "mat_mult a b = map2 (map2 (*)) a b"

definition mat_le :: "real list list \<Rightarrow> real list list \<Rightarrow> bool list list" where
  "mat_le a b = map2 (map2 (\<le>)) a b"

definition logical_and2 :: "bool list list \<Rightarrow> bool list list \<Rightarrow> bool list list" where
  "logical_and2 a b = map2 (map2 (\<and>)) a b"

text \<open>A scalar times a matrix, and a vector minus a matrix (the vector is broadcast
  across the rows).\<close>

definition scalar_mult :: "real \<Rightarrow> real list list \<Rightarrow> real list list" where
  "scalar_mult c m = map (map (\<lambda>x. c * x)) m"

definition row_sub :: "real list \<Rightarrow> real list list \<Rightarrow> real list list" where
  "row_sub v m = map (\<lambda>row. map2 (-) v row) m"

text \<open>A matrix compared with a scalar: \<^verbatim>\<open>m >= c\<close> and \<^verbatim>\<open>m <= c\<close>.\<close>

definition mat_ge_scalar :: "real list list \<Rightarrow> real \<Rightarrow> bool list list" where
  "mat_ge_scalar m c = map (map (\<lambda>x. x \<ge> c)) m"

definition mat_le_scalar :: "real list list \<Rightarrow> real \<Rightarrow> bool list list" where
  "mat_le_scalar m c = map (map (\<lambda>x. x \<le> c)) m"

text \<open>Indexing with one index, \<^verbatim>\<open>a[i]\<close>: \<^verbatim>\<open>IndexError\<close> when out of range.\<close>

definition getitem :: "'a list \<Rightarrow> nat \<Rightarrow> error + 'a" where
  "getitem xs i = (if i < length xs then Inr (xs ! i) else Inl IndexError)"

text \<open>Indexing with a vector or a matrix of indices, \<^verbatim>\<open>a[idx]\<close>: the result has the
  shape of \<open>idx\<close>; \<^verbatim>\<open>IndexError\<close> when one index is out of range.\<close>

definition take_idx :: "'a list \<Rightarrow> nat list \<Rightarrow> error + 'a list" where
  "take_idx xs js =
     (if list_all (\<lambda>j. j < length xs) js then Inr (map (\<lambda>j. xs ! j) js) else Inl IndexError)"

definition take_idx2 :: "'a list \<Rightarrow> nat list list \<Rightarrow> error + 'a list list" where
  "take_idx2 xs rows =
     (if list_all (list_all (\<lambda>j. j < length xs)) rows
      then Inr (map (map (\<lambda>j. xs ! j)) rows) else Inl IndexError)"

text \<open>A dictionary lookup \<^verbatim>\<open>d[key]\<close>: \<^verbatim>\<open>KeyError\<close> when the key is missing.\<close>

definition lookup :: "(string \<rightharpoonup> real) \<Rightarrow> string \<Rightarrow> error + real" where
  "lookup d key = (case d key of None \<Rightarrow> Inl KeyError | Some v \<Rightarrow> Inr v)"

subsection \<open>update_pbest\<close>

definition update_pbest :: "swarm \<Rightarrow> real list list \<times> real list" where
  "update_pbest swarm =
     (let mask_cost = map2 (<) (current_cost swarm) (pbest_cost swarm);
          mask_pos = repeat_axis1 mask_cost (dimensions swarm);
          new_pbest_pos = np_where2 (np_invert2 mask_pos) (pbest_pos swarm) (position swarm);
          new_pbest_cost = np_where (np_invert mask_cost) (pbest_cost swarm) (current_cost swarm)
      in (new_pbest_pos, new_pbest_cost))"

subsection \<open>update_gbest\<close>

definition update_gbest :: "swarm \<Rightarrow> error + (real list \<times> real)" where
  "update_gbest swarm =
     (case np_argmin (pbest_cost swarm) of
        Inl e \<Rightarrow> Inl e
      | Inr i \<Rightarrow>
          (case getitem (pbest_pos swarm) i of
             Inl e \<Rightarrow> Inl e
           | Inr best_pos' \<Rightarrow>
               (case np_min (pbest_cost swarm) of
                  Inl e \<Rightarrow> Inl e
                | Inr best_cost' \<Rightarrow> Inr (best_pos', best_cost'))))"

subsection \<open>update_gbest_neighborhood\<close>

text \<open>
  The result \<^verbatim>\<open>idx\<close> of \<^verbatim>\<open>tree.query(swarm.position, p=p, k=k)\<close>: for \<open>k = 1\<close> a vector
  with one neighbour index per particle, for \<open>k > 1\<close> a matrix with one row of \<open>k\<close>
  neighbour indices per particle.
\<close>

datatype knn_idx = Idx1 "nat list" | Idx2 "nat list list"

type_synonym knn_query = "real list list \<Rightarrow> int \<Rightarrow> int \<Rightarrow> error + knn_idx"

text \<open>
  The branch on \<^verbatim>\<open>k == 1\<close> that computes \<^verbatim>\<open>best_neighbor\<close>.
  For \<open>k = 1\<close> the costs \<^verbatim>\<open>pbest_cost[idx]\<close> get a new axis of length one and the argmin
  is taken along that axis, so every entry of the result is \<open>0\<close>. (With a matrix \<open>idx\<close>
  the result is a matrix of zeros; only its minimum and argmin over all entries are used
  afterwards, so the entries are listed row by row.)
  For \<open>k \<noteq> 1\<close> and a vector \<open>idx\<close> the call \<^verbatim>\<open>argmin(axis=1)\<close> fails: numpy's
  \<^verbatim>\<open>AxisError\<close> is a \<^verbatim>\<open>ValueError\<close>.
\<close>

definition best_neighbor :: "swarm \<Rightarrow> int \<Rightarrow> knn_idx \<Rightarrow> error + nat list" where
  "best_neighbor swarm k idx =
     (if k = 1 then
        (case idx of
           Idx1 js \<Rightarrow>
             (case take_idx (pbest_cost swarm) js of
                Inl e \<Rightarrow> Inl e
              | Inr costs \<Rightarrow> Inr (map (\<lambda>c. 0) costs))
         | Idx2 rows \<Rightarrow>
             (case take_idx2 (pbest_cost swarm) rows of
                Inl e \<Rightarrow> Inl e
              | Inr costs \<Rightarrow> Inr (map (\<lambda>c. 0) (concat costs))))
      else
        (case idx of
           Idx1 js \<Rightarrow>
             (case take_idx (pbest_cost swarm) js of
                Inl e \<Rightarrow> Inl e
              | Inr costs \<Rightarrow> Inl ValueError)
         | Idx2 rows \<Rightarrow>
             (case take_idx2 (pbest_cost swarm) rows of
                Inl e \<Rightarrow> Inl e
              | Inr costs \<Rightarrow>
                  (case argmin_axis1 costs of
                     Inl e \<Rightarrow> Inl e
                   | Inr idx_min \<Rightarrow> Inr (map2 (\<lambda>row m. row ! m) rows idx_min)))))"

definition update_gbest_neighborhood ::
    "knn_query \<Rightarrow> swarm \<Rightarrow> int \<Rightarrow> int \<Rightarrow> error + (real list \<times> real)" where
  "update_gbest_neighborhood query swarm p k =
     (case query (position swarm) p k of
        Inl e \<Rightarrow> Inl e
      | Inr idx \<Rightarrow>
          (case best_neighbor swarm k idx of
             Inl e \<Rightarrow> Inl e
           | Inr bn \<Rightarrow>
               (case take_idx (pbest_cost swarm) bn of
                  Inl e \<Rightarrow> Inl e
                | Inr costs \<Rightarrow>
                    (case np_min costs of
                       Inl e \<Rightarrow> Inl e
                     | Inr best_cost' \<Rightarrow>
                         (case np_argmin costs of
                            Inl e \<Rightarrow> Inl e
                          | Inr j \<Rightarrow>
                              (case getitem (pbest_pos swarm) j of
                                 Inl e \<Rightarrow> Inl e
                               | Inr best_pos' \<Rightarrow> Inr (best_pos', best_cost')))))))"

subsubsection \<open>The nearest-neighbour query\<close>

text \<open>
  Modelled from the spec: \<^verbatim>\<open>scipy.spatial.cKDTree\<close> and its \<^verbatim>\<open>query\<close> are not part of
  the module. The spec (4.3, steps 1 and 2) says: for every particle, query its \<open>k\<close>
  nearest neighbors under the chosen Minkowski metric, ordered by ascending distance,
  the positions being queried against themselves. How ties between equal distances are
  broken is left open, so the query is specified by a predicate and not by a function.
\<close>

definition minkowski_distance :: "int \<Rightarrow> real list \<Rightarrow> real list \<Rightarrow> real" where
  "minkowski_distance p x y = root (nat p) (\<Sum>(a, b) \<leftarrow> zip x y. \<bar>a - b\<bar> ^ nat p)"

text \<open>Row \<open>row\<close> lists \<open>k\<close> nearest neighbours of particle \<open>i\<close>: \<open>k\<close> different particles,
  in ascending distance from \<open>i\<close>, none of them farther from \<open>i\<close> than a particle left out.\<close>

definition knn_row :: "real list list \<Rightarrow> int \<Rightarrow> nat \<Rightarrow> nat \<Rightarrow> nat list \<Rightarrow> bool" where
  "knn_row pos p k i row =
     (length row = k \<and> distinct row \<and> list_all (\<lambda>j. j < length pos) row \<and>
      sorted (map (\<lambda>j. minkowski_distance p (pos ! i) (pos ! j)) row) \<and>
      list_all (\<lambda>j. j \<in> set row \<or>
          list_all (\<lambda>m. minkowski_distance p (pos ! i) (pos ! m)
                        \<le> minkowski_distance p (pos ! i) (pos ! j)) row)
        [0..<length pos])"

definition knn_result :: "real list list \<Rightarrow> int \<Rightarrow> int \<Rightarrow> knn_idx \<Rightarrow> bool" where
  "knn_result pos p k idx =
     (case idx of
        Idx1 js \<Rightarrow> k = 1 \<and> length js = length pos \<and>
          list_all (\<lambda>i. knn_row pos p 1 i [js ! i]) [0..<length pos]
      | Idx2 rows \<Rightarrow> 1 < k \<and> length rows = length pos \<and>
          list_all (\<lambda>i. knn_row pos p (nat k) i (rows ! i)) [0..<length pos])"

subsection \<open>update_velocity\<close>

text \<open>\<open>r1\<close> and \<open>r2\<close> are the results of the two calls
  \<^verbatim>\<open>np.random.uniform(0, 1, swarm_size)\<close>, in the order of the source.\<close>

definition update_velocity ::
    "real list list \<Rightarrow> real list list \<Rightarrow> swarm \<Rightarrow> (real \<times> real) option \<Rightarrow> error + real list list" where
  "update_velocity r1 r2 swarm clamp =
     (case lookup (behavior swarm) ''c1'' of
        Inl e \<Rightarrow> Inl e
      | Inr c1 \<Rightarrow>
     (case lookup (behavior swarm) ''c2'' of
        Inl e \<Rightarrow> Inl e
      | Inr c2 \<Rightarrow>
     (case lookup (behavior swarm) ''w'' of
        Inl e \<Rightarrow> Inl e
      | Inr w \<Rightarrow>
          (let cognitive = mat_mult (scalar_mult c1 r1) (mat_sub (pbest_pos swarm) (position swarm));
               social = mat_mult (scalar_mult c2 r2) (row_sub (best_pos swarm) (position swarm));
               temp_velocity = mat_add (mat_add (scalar_mult w (velocity swarm)) cognitive) social
           in (case clamp of
                 None \<Rightarrow> Inr temp_velocity
               | Some (min_velocity, max_velocity) \<Rightarrow>
                   (let mask = logical_and2 (mat_ge_scalar temp_velocity min_velocity)
                                            (mat_le_scalar temp_velocity max_velocity)
                    in Inr (np_where2 (np_invert2 mask) (velocity swarm) temp_velocity)))))))"

subsection \<open>update_position\<close>

definition update_position :: "swarm \<Rightarrow> (real list \<times> real list) option \<Rightarrow> real list list" where
  "update_position swarm bounds =
     (let temp_position = mat_add (position swarm) (velocity swarm)
      in (case bounds of
            None \<Rightarrow> temp_position
          | Some (lb, ub) \<Rightarrow>
              (let min_bounds = repeat_axis0 lb (n_particles swarm);
                   max_bounds = repeat_axis0 ub (n_particles swarm);
                   mask = map2 (\<and>) (all_axis1 (mat_le min_bounds temp_position))
                                     (all_axis1 (mat_le temp_position max_bounds));
                   mask2 = repeat_axis1 mask (dimensions swarm)
               in np_where2 (np_invert2 mask2) (position swarm) temp_position)))"

subsection \<open>Example swarms\<close>

text \<open>Two particles in one dimension, and three particles in two dimensions.\<close>

definition swarm_2x1 :: swarm where
  "swarm_2x1 =
     \<lparr>position = [[0], [1]], velocity = [[1], [1]], n_particles = 2, dimensions = 1,
      behavior = [''c1'' \<mapsto> 1, ''c2'' \<mapsto> 2, ''w'' \<mapsto> 1],
      pbest_pos = [[0], [5]], best_pos = [5], pbest_cost = [2, 1], best_cost = 1,
      current_cost = [1, 3]\<rparr>"

definition swarm_3x2 :: swarm where
  "swarm_3x2 =
     \<lparr>position = [[0, 0], [1, 0], [3, 0]], velocity = [[1, 1], [1/2, 2], [-1, 0]],
      n_particles = 3, dimensions = 2,
      behavior = [''c1'' \<mapsto> 1, ''c2'' \<mapsto> 2, ''w'' \<mapsto> 1],
      pbest_pos = [[0, 1], [1, 1], [2, 2]], best_pos = [1, 1], pbest_cost = [3, 1, 2],
      best_cost = 1, current_cost = [2, 1, 5]\<rparr>"

text \<open>Two matrices of random draws from \<open>[0, 1)\<close> for the second example.\<close>

definition draws_r1 :: "real list list" where
  "draws_r1 = [[0, 1/2], [1/2, 0], [1/4, 1/4]]"

definition draws_r2 :: "real list list" where
  "draws_r2 = [[1/2, 1/4], [0, 1/2], [1/2, 0]]"

text \<open>Two stand-ins for the query of the k-d tree on the examples: one that answers
  with the given neighbour indices, and one that raises the given error.\<close>

definition const_query :: "knn_idx \<Rightarrow> knn_query" where
  "const_query idx pos p k = Inr idx"

definition error_query :: "error \<Rightarrow> knn_query" where
  "error_query e pos p k = Inl e"

section \<open>Properties\<close>

subsection \<open>Shapes\<close>

lemma has_shape_nth: "has_shape m n d \<Longrightarrow> i < n \<Longrightarrow> length (m ! i) = d"
  by (auto simp: has_shape_def list_all_length)

lemma has_shape_length: "has_shape m n d \<Longrightarrow> length m = n"
  by (simp add: has_shape_def)

subsection \<open>np.where\<close>

lemma length_np_where: "length (np_where c x y) = min (length c) (min (length x) (length y))"
  by (simp add: np_where_def)

lemma nth_np_where:
  "i < length c \<Longrightarrow> i < length x \<Longrightarrow> i < length y \<Longrightarrow>
   np_where c x y ! i = (if c ! i then x ! i else y ! i)"
  by (simp add: np_where_def)

lemma length_np_where2: "length (np_where2 c x y) = min (length c) (min (length x) (length y))"
  by (simp add: np_where2_def)

lemma nth_np_where2:
  "i < length c \<Longrightarrow> i < length x \<Longrightarrow> i < length y \<Longrightarrow>
   np_where2 c x y ! i = np_where (c ! i) (x ! i) (y ! i)"
  by (simp add: np_where2_def)

lemma np_where_replicate:
  "length x = d \<Longrightarrow> length y = d \<Longrightarrow> np_where (replicate d b) x y = (if b then x else y)"
  by (rule nth_equalityI) (auto simp: length_np_where nth_np_where)

subsection \<open>update_pbest\<close>

lemma update_pbest_lengths:
  assumes "consistent_shapes s"
  shows "length (fst (update_pbest s)) = n_particles s"
    and "length (snd (update_pbest s)) = n_particles s"
  using assms
  by (simp_all add: update_pbest_def consistent_shapes_def has_shape_def Let_def
      length_np_where length_np_where2 np_invert_def np_invert2_def repeat_axis1_def)

lemma update_pbest_cost_nth:
  assumes "consistent_shapes s" "i < n_particles s"
  shows "snd (update_pbest s) ! i =
           (if current_cost s ! i < pbest_cost s ! i then current_cost s ! i else pbest_cost s ! i)"
  using assms
  by (simp add: update_pbest_def consistent_shapes_def Let_def nth_np_where np_invert_def)

lemma update_pbest_pos_nth:
  assumes "consistent_shapes s" "i < n_particles s"
  shows "fst (update_pbest s) ! i =
           (if current_cost s ! i < pbest_cost s ! i then position s ! i else pbest_pos s ! i)"
proof -
  from assms have len:
    "length (position s ! i) = dimensions s" "length (pbest_pos s ! i) = dimensions s"
    by (auto simp: consistent_shapes_def has_shape_nth)
  from assms have "fst (update_pbest s) ! i =
      np_where (replicate (dimensions s) (\<not> current_cost s ! i < pbest_cost s ! i))
        (pbest_pos s ! i) (position s ! i)"
    by (simp add: update_pbest_def consistent_shapes_def has_shape_def Let_def nth_np_where2
        np_invert_def np_invert2_def repeat_axis1_def)
  with len show ?thesis by (simp add: np_where_replicate)
qed

lemma consistent_shapes_swarm_2x1: "consistent_shapes swarm_2x1"
  by (simp add: consistent_shapes_def has_shape_def swarm_2x1_def)

lemma consistent_shapes_swarm_3x2: "consistent_shapes swarm_3x2"
  by (simp add: consistent_shapes_def has_shape_def swarm_3x2_def)

lemma update_pbest_swarm_3x2:
  "update_pbest swarm_3x2 = ([[0, 0], [1, 1], [2, 2]], [2, 1, 2])"
  by (simp add: update_pbest_def swarm_3x2_def Let_def np_where_def np_where2_def
      np_invert_def np_invert2_def repeat_axis1_def eval_nat_numeral)

text \<open>
  Claim C1. On a swarm of consistent shapes, \<open>update_pbest\<close> returns for every particle
  \<open>i\<close> the cost \<open>min (pbest_cost[i]) (current_cost[i])\<close>. The new personal best position
  of \<open>i\<close> is \<open>position[i]\<close>, with the cost \<open>current_cost[i]\<close>, when
  \<open>current_cost[i] < pbest_cost[i]\<close> strictly; on a tie or a larger current cost the old
  \<open>pbest_pos[i]\<close> and the old \<open>pbest_cost[i]\<close> are carried forward. Hence, where the old
  personal best position differs from the current position, the new one is \<open>position[i]\<close>
  if and only if the current cost is strictly lower.
\<close>

theorem update_pbest_selects:
  assumes "consistent_shapes s"
    and "update_pbest s = (new_pbest_pos, new_pbest_cost)"
    and "i < n_particles s"
  shows "new_pbest_cost ! i = min (pbest_cost s ! i) (current_cost s ! i) \<and>
         (current_cost s ! i < pbest_cost s ! i \<longrightarrow>
            new_pbest_pos ! i = position s ! i \<and> new_pbest_cost ! i = current_cost s ! i) \<and>
         (\<not> current_cost s ! i < pbest_cost s ! i \<longrightarrow>
            new_pbest_pos ! i = pbest_pos s ! i \<and> new_pbest_cost ! i = pbest_cost s ! i) \<and>
         (pbest_pos s ! i \<noteq> position s ! i \<longrightarrow>
            (new_pbest_pos ! i = position s ! i) = (current_cost s ! i < pbest_cost s ! i))"
  using update_pbest_cost_nth [OF assms(1,3)] update_pbest_pos_nth [OF assms(1,3)] assms(2)
  by (auto simp: min_def)

text \<open>Particle 1 of the example is a tie (cost 1 on both sides): its old personal best
  position and cost are kept.\<close>

theorem update_pbest_selects_witness:
  "consistent_shapes swarm_3x2 \<and>
   update_pbest swarm_3x2 = ([[0, 0], [1, 1], [2, 2]], [2, 1, 2]) \<and>
   (1::nat) < n_particles swarm_3x2 \<and>
   [2, 1, 2 :: real] ! 1 = min (pbest_cost swarm_3x2 ! 1) (current_cost swarm_3x2 ! 1) \<and>
   \<not> current_cost swarm_3x2 ! 1 < pbest_cost swarm_3x2 ! 1 \<and>
   [[0, 0], [1, 1], [2, 2 :: real]] ! 1 = pbest_pos swarm_3x2 ! 1"
proof -
  have i: "(1::nat) < n_particles swarm_3x2" by (simp add: swarm_3x2_def)
  have tie: "\<not> current_cost swarm_3x2 ! 1 < pbest_cost swarm_3x2 ! 1"
    by (simp add: swarm_3x2_def)
  from update_pbest_selects [OF consistent_shapes_swarm_3x2 update_pbest_swarm_3x2 i] tie
  show ?thesis
    using consistent_shapes_swarm_3x2 update_pbest_swarm_3x2 i by blast
qed

text \<open>
  Claim C8. \<open>update_pbest\<close> is idempotent: when its result is written back into the
  swarm and it is applied again with the same \<open>current_cost\<close>, it returns the same
  personal best positions and costs.
\<close>

theorem update_pbest_idempotent:
  assumes "consistent_shapes s"
    and "update_pbest s = (new_pbest_pos, new_pbest_cost)"
  shows "update_pbest (s\<lparr>pbest_pos := new_pbest_pos, pbest_cost := new_pbest_cost\<rparr>)
           = (new_pbest_pos, new_pbest_cost)"
proof -
  let ?s' = "s\<lparr>pbest_pos := new_pbest_pos, pbest_cost := new_pbest_cost\<rparr>"
  have pp: "new_pbest_pos = fst (update_pbest s)" and pc: "new_pbest_cost = snd (update_pbest s)"
    using assms(2) by simp_all
  have lens: "length new_pbest_pos = n_particles s" "length new_pbest_cost = n_particles s"
    using update_pbest_lengths [OF assms(1)] pp pc by simp_all
  have rows: "length (new_pbest_pos ! i) = dimensions s" if "i < n_particles s" for i
    using update_pbest_pos_nth [OF assms(1) that] assms(1) that pp
    by (auto simp: consistent_shapes_def has_shape_nth)
  have cs: "consistent_shapes ?s'"
    using assms(1) lens rows
    by (auto simp: consistent_shapes_def has_shape_def list_all_length)
  have "fst (update_pbest ?s') = new_pbest_pos"
  proof (rule nth_equalityI)
    show "length (fst (update_pbest ?s')) = length new_pbest_pos"
      using update_pbest_lengths(1) [OF cs] lens by simp
  next
    fix i assume "i < length (fst (update_pbest ?s'))"
    then have i: "i < n_particles s" using update_pbest_lengths(1) [OF cs] by simp
    then have i': "i < n_particles ?s'" by simp
    show "fst (update_pbest ?s') ! i = new_pbest_pos ! i"
      using update_pbest_pos_nth [OF cs i'] update_pbest_pos_nth [OF assms(1) i]
        update_pbest_cost_nth [OF assms(1) i] pp pc
      by (auto split: if_splits)
  qed
  moreover have "snd (update_pbest ?s') = new_pbest_cost"
  proof (rule nth_equalityI)
    show "length (snd (update_pbest ?s')) = length new_pbest_cost"
      using update_pbest_lengths(2) [OF cs] lens by simp
  next
    fix i assume "i < length (snd (update_pbest ?s'))"
    then have i: "i < n_particles s" using update_pbest_lengths(2) [OF cs] by simp
    then have i': "i < n_particles ?s'" by simp
    show "snd (update_pbest ?s') ! i = new_pbest_cost ! i"
      using update_pbest_cost_nth [OF cs i'] update_pbest_cost_nth [OF assms(1) i] pc
      by (auto split: if_splits)
  qed
  ultimately show ?thesis by (simp add: prod_eq_iff)
qed

theorem update_pbest_idempotent_witness:
  "consistent_shapes swarm_3x2 \<and>
   update_pbest swarm_3x2 = ([[0, 0], [1, 1], [2, 2]], [2, 1, 2]) \<and>
   update_pbest (swarm_3x2\<lparr>pbest_pos := [[0, 0], [1, 1], [2, 2]], pbest_cost := [2, 1, 2]\<rparr>)
     = ([[0, 0], [1, 1], [2, 2]], [2, 1, 2])"
  using update_pbest_idempotent [OF consistent_shapes_swarm_3x2 update_pbest_swarm_3x2]
    consistent_shapes_swarm_3x2 update_pbest_swarm_3x2
  by blast

subsection \<open>np.argmin, np.min and update_gbest\<close>

lemma argmin_from_spec:
  assumes "length pre = i" "bi < i" "pre ! bi = bv"
    and "\<forall>j<i. bv \<le> pre ! j" "\<forall>j<bi. bv < pre ! j"
  shows "argmin_from bi bv i xs < length (pre @ xs) \<and>
         (\<forall>j<length (pre @ xs). (pre @ xs) ! argmin_from bi bv i xs \<le> (pre @ xs) ! j) \<and>
         (\<forall>j<argmin_from bi bv i xs. (pre @ xs) ! argmin_from bi bv i xs < (pre @ xs) ! j)"
  using assms
proof (induction xs arbitrary: pre bi bv i)
  case Nil
  then show ?case by auto
next
  case (Cons x xs)
  let ?pre = "pre @ [x]"
  show ?case
  proof (cases "x < bv")
    case True
    have "argmin_from i x (Suc i) xs < length (?pre @ xs) \<and>
         (\<forall>j<length (?pre @ xs). (?pre @ xs) ! argmin_from i x (Suc i) xs \<le> (?pre @ xs) ! j) \<and>
         (\<forall>j<argmin_from i x (Suc i) xs. (?pre @ xs) ! argmin_from i x (Suc i) xs < (?pre @ xs) ! j)"
    proof (rule Cons.IH)
      show "length ?pre = Suc i" using Cons.prems by simp
      show "i < Suc i" by simp
      show "?pre ! i = x" using Cons.prems(1) [symmetric] by simp
      show "\<forall>j<Suc i. x \<le> ?pre ! j"
        using Cons.prems True by (auto simp: nth_append less_Suc_eq intro: less_imp_le order_trans)
      show "\<forall>j<i. x < ?pre ! j"
        using Cons.prems True by (auto simp: nth_append intro: less_le_trans)
    qed
    with True show ?thesis by simp
  next
    case False
    have "argmin_from bi bv (Suc i) xs < length (?pre @ xs) \<and>
         (\<forall>j<length (?pre @ xs). (?pre @ xs) ! argmin_from bi bv (Suc i) xs \<le> (?pre @ xs) ! j) \<and>
         (\<forall>j<argmin_from bi bv (Suc i) xs. (?pre @ xs) ! argmin_from bi bv (Suc i) xs < (?pre @ xs) ! j)"
    proof (rule Cons.IH)
      show "length ?pre = Suc i" using Cons.prems by simp
      show "bi < Suc i" using Cons.prems by simp
      show "?pre ! bi = bv" using Cons.prems by (simp add: nth_append)
      show "\<forall>j<Suc i. bv \<le> ?pre ! j"
        using Cons.prems False by (auto simp: nth_append less_Suc_eq)
      show "\<forall>j<bi. bv < ?pre ! j"
        using Cons.prems by (auto simp: nth_append)
    qed
    with False show ?thesis by simp
  qed
qed

lemma argmin_list_spec:
  assumes "xs \<noteq> []"
  shows "argmin_list xs < length xs"
    and "\<forall>j<length xs. xs ! argmin_list xs \<le> xs ! j"
    and "\<forall>j<argmin_list xs. xs ! argmin_list xs < xs ! j"
proof -
  from assms obtain x ys where xs: "xs = x # ys" by (cases xs) auto
  have "argmin_from 0 x (Suc 0) ys < length ([x] @ ys) \<and>
         (\<forall>j<length ([x] @ ys). ([x] @ ys) ! argmin_from 0 x (Suc 0) ys \<le> ([x] @ ys) ! j) \<and>
         (\<forall>j<argmin_from 0 x (Suc 0) ys. ([x] @ ys) ! argmin_from 0 x (Suc 0) ys < ([x] @ ys) ! j)"
    by (rule argmin_from_spec) auto
  then show "argmin_list xs < length xs"
    and "\<forall>j<length xs. xs ! argmin_list xs \<le> xs ! j"
    and "\<forall>j<argmin_list xs. xs ! argmin_list xs < xs ! j"
    by (simp_all add: xs)
qed

lemma np_min_Min: "xs \<noteq> [] \<Longrightarrow> np_min xs = Inr (Min (set xs))"
  by (cases xs) (simp_all add: np_min_def Min.set_eq_fold [symmetric])

lemma nth_argmin_list:
  assumes "xs \<noteq> []" shows "xs ! argmin_list xs = Min (set xs)"
proof (rule antisym)
  have "Min (set xs) \<in> set xs" using assms by simp
  then obtain j where "j < length xs" "xs ! j = Min (set xs)" by (auto simp: in_set_conv_nth)
  then show "xs ! argmin_list xs \<le> Min (set xs)" using argmin_list_spec(2) [OF assms] by metis
  show "Min (set xs) \<le> xs ! argmin_list xs"
    using argmin_list_spec(1) [OF assms] by simp
qed

text \<open>
  Claim C2. For a non-empty \<open>pbest_cost\<close> (and one personal best position per cost),
  \<open>update_gbest\<close> returns the minimum of \<open>pbest_cost\<close> and the position at the index
  of that minimum; among equal minima the first index is taken. In the scenario with
  \<open>pbest_pos = [[0], [5]]\<close> and \<open>pbest_cost = [2, 1]\<close> the result is \<open>([5], 1)\<close>.
\<close>

theorem update_gbest_min:
  assumes "pbest_cost s \<noteq> []"
    and "length (pbest_pos s) = length (pbest_cost s)"
  shows "\<exists>i<length (pbest_cost s).
           update_gbest s = Inr (pbest_pos s ! i, pbest_cost s ! i) \<and>
           pbest_cost s ! i = Min (set (pbest_cost s)) \<and>
           (\<forall>j<length (pbest_cost s). pbest_cost s ! i \<le> pbest_cost s ! j) \<and>
           (\<forall>j<i. pbest_cost s ! i < pbest_cost s ! j)"
proof (intro exI conjI)
  let ?i = "argmin_list (pbest_cost s)"
  show "?i < length (pbest_cost s)" by (rule argmin_list_spec(1) [OF assms(1)])
  then show "update_gbest s = Inr (pbest_pos s ! ?i, pbest_cost s ! ?i)"
    using assms by (simp add: update_gbest_def np_argmin_def getitem_def np_min_Min nth_argmin_list)
  show "pbest_cost s ! ?i = Min (set (pbest_cost s))" by (rule nth_argmin_list [OF assms(1)])
  show "\<forall>j<length (pbest_cost s). pbest_cost s ! ?i \<le> pbest_cost s ! j"
    by (rule argmin_list_spec(2) [OF assms(1)])
  show "\<forall>j<?i. pbest_cost s ! ?i < pbest_cost s ! j"
    by (rule argmin_list_spec(3) [OF assms(1)])
qed

text \<open>The scenario of the claim, obtained from the theorem: the index can only be 1.\<close>

theorem update_gbest_min_witness:
  "pbest_cost swarm_2x1 \<noteq> [] \<and>
   length (pbest_pos swarm_2x1) = length (pbest_cost swarm_2x1) \<and>
   pbest_pos swarm_2x1 = [[0], [5]] \<and> pbest_cost swarm_2x1 = [2, 1] \<and>
   update_gbest swarm_2x1 = Inr ([5], 1)"
proof -
  have ne: "pbest_cost swarm_2x1 \<noteq> []"
    and len: "length (pbest_pos swarm_2x1) = length (pbest_cost swarm_2x1)"
    and pos: "pbest_pos swarm_2x1 = [[0], [5]]" and cost: "pbest_cost swarm_2x1 = [2, 1]"
    by (simp_all add: swarm_2x1_def)
  from update_gbest_min [OF ne len] obtain i where i: "i < length (pbest_cost swarm_2x1)"
    and res: "update_gbest swarm_2x1 = Inr (pbest_pos swarm_2x1 ! i, pbest_cost swarm_2x1 ! i)"
    and least: "\<forall>j<length (pbest_cost swarm_2x1). pbest_cost swarm_2x1 ! i \<le> pbest_cost swarm_2x1 ! j"
    by blast
  from i cost have "i = 0 \<or> i = 1" by auto
  moreover from least cost have "pbest_cost swarm_2x1 ! i \<le> 1" by auto
  ultimately have "i = 1" using cost by auto
  with res pos cost have "update_gbest swarm_2x1 = Inr ([5], 1)" by simp
  with ne len pos cost show ?thesis by blast
qed

subsection \<open>Elementwise operations on matrices\<close>

lemma has_shape_map2:
  "has_shape a n d \<Longrightarrow> has_shape b n d \<Longrightarrow> has_shape (map2 (map2 f) a b) n d"
  by (auto simp: has_shape_def list_all_length)

lemma nth_map2_map2:
  "has_shape a n d \<Longrightarrow> has_shape b n d \<Longrightarrow> i < n \<Longrightarrow> j < d \<Longrightarrow>
   map2 (map2 f) a b ! i ! j = f (a ! i ! j) (b ! i ! j)"
  by (auto simp: has_shape_def list_all_length)

lemma has_shape_map_map: "has_shape a n d \<Longrightarrow> has_shape (map (map f) a) n d"
  by (auto simp: has_shape_def list_all_length)

lemma nth_map_map:
  "has_shape a n d \<Longrightarrow> i < n \<Longrightarrow> j < d \<Longrightarrow> map (map f) a ! i ! j = f (a ! i ! j)"
  by (auto simp: has_shape_def list_all_length)

lemma has_shape_row_sub:
  "length v = d \<Longrightarrow> has_shape m n d \<Longrightarrow> has_shape (row_sub v m) n d"
  by (auto simp: has_shape_def list_all_length row_sub_def)

lemma nth_row_sub:
  "length v = d \<Longrightarrow> has_shape m n d \<Longrightarrow> i < n \<Longrightarrow> j < d \<Longrightarrow>
   row_sub v m ! i ! j = v ! j - m ! i ! j"
  by (auto simp: has_shape_def list_all_length row_sub_def)

subsection \<open>update_velocity\<close>

lemma temp_velocity_shape:
  assumes "consistent_shapes s" "has_shape r1 (n_particles s) (dimensions s)"
    "has_shape r2 (n_particles s) (dimensions s)"
  shows "has_shape
      (mat_add (mat_add (scalar_mult w (velocity s))
          (mat_mult (scalar_mult c1 r1) (mat_sub (pbest_pos s) (position s))))
        (mat_mult (scalar_mult c2 r2) (row_sub (best_pos s) (position s))))
      (n_particles s) (dimensions s)"
  using assms unfolding consistent_shapes_def mat_add_def mat_sub_def mat_mult_def scalar_mult_def
  by (intro has_shape_map2 has_shape_map_map has_shape_row_sub) simp_all

lemma temp_velocity_nth:
  assumes cs: "consistent_shapes s" and r1: "has_shape r1 (n_particles s) (dimensions s)"
    and r2: "has_shape r2 (n_particles s) (dimensions s)"
    and i: "i < n_particles s" and j: "j < dimensions s"
  shows "mat_add (mat_add (scalar_mult w (velocity s))
          (mat_mult (scalar_mult c1 r1) (mat_sub (pbest_pos s) (position s))))
        (mat_mult (scalar_mult c2 r2) (row_sub (best_pos s) (position s))) ! i ! j =
      w * velocity s ! i ! j
      + c1 * r1 ! i ! j * (pbest_pos s ! i ! j - position s ! i ! j)
      + c2 * r2 ! i ! j * (best_pos s ! j - position s ! i ! j)"
proof -
  let ?n = "n_particles s" and ?d = "dimensions s"
  from cs have X: "has_shape (position s) ?n ?d" and V: "has_shape (velocity s) ?n ?d"
    and P: "has_shape (pbest_pos s) ?n ?d" and B: "length (best_pos s) = ?d"
    by (simp_all add: consistent_shapes_def)
  have inertia: "has_shape (scalar_mult w (velocity s)) ?n ?d"
    "scalar_mult w (velocity s) ! i ! j = w * velocity s ! i ! j"
    unfolding scalar_mult_def using V i j by (simp_all add: has_shape_map_map nth_map_map)
  have c1r1: "has_shape (scalar_mult c1 r1) ?n ?d" "scalar_mult c1 r1 ! i ! j = c1 * r1 ! i ! j"
    unfolding scalar_mult_def using r1 i j by (simp_all add: has_shape_map_map nth_map_map)
  have c2r2: "has_shape (scalar_mult c2 r2) ?n ?d" "scalar_mult c2 r2 ! i ! j = c2 * r2 ! i ! j"
    unfolding scalar_mult_def using r2 i j by (simp_all add: has_shape_map_map nth_map_map)
  have dp: "has_shape (mat_sub (pbest_pos s) (position s)) ?n ?d"
    "mat_sub (pbest_pos s) (position s) ! i ! j = pbest_pos s ! i ! j - position s ! i ! j"
    unfolding mat_sub_def using P X i j
    by (simp_all add: has_shape_map2 nth_map2_map2 [where n = ?n and d = ?d])
  have db: "has_shape (row_sub (best_pos s) (position s)) ?n ?d"
    "row_sub (best_pos s) (position s) ! i ! j = best_pos s ! j - position s ! i ! j"
    using B X i j by (simp_all add: has_shape_row_sub nth_row_sub [where n = ?n and d = ?d])
  have cognitive: "has_shape (mat_mult (scalar_mult c1 r1) (mat_sub (pbest_pos s) (position s))) ?n ?d"
    "mat_mult (scalar_mult c1 r1) (mat_sub (pbest_pos s) (position s)) ! i ! j =
       c1 * r1 ! i ! j * (pbest_pos s ! i ! j - position s ! i ! j)"
    unfolding mat_mult_def using c1r1 dp i j
    by (simp_all add: has_shape_map2 nth_map2_map2 [where n = ?n and d = ?d])
  have social: "has_shape (mat_mult (scalar_mult c2 r2) (row_sub (best_pos s) (position s))) ?n ?d"
    "mat_mult (scalar_mult c2 r2) (row_sub (best_pos s) (position s)) ! i ! j =
       c2 * r2 ! i ! j * (best_pos s ! j - position s ! i ! j)"
    unfolding mat_mult_def using c2r2 db i j
    by (simp_all add: has_shape_map2 nth_map2_map2 [where n = ?n and d = ?d])
  have ic: "has_shape (mat_add (scalar_mult w (velocity s))
          (mat_mult (scalar_mult c1 r1) (mat_sub (pbest_pos s) (position s)))) ?n ?d"
    "mat_add (scalar_mult w (velocity s))
          (mat_mult (scalar_mult c1 r1) (mat_sub (pbest_pos s) (position s))) ! i ! j =
      w * velocity s ! i ! j + c1 * r1 ! i ! j * (pbest_pos s ! i ! j - position s ! i ! j)"
    unfolding mat_add_def using inertia cognitive i j
    by (simp_all add: has_shape_map2 nth_map2_map2 [where n = ?n and d = ?d])
  show ?thesis
    unfolding mat_add_def [of "mat_add _ _"] using ic social i j
    by (simp add: nth_map2_map2 [where n = ?n and d = ?d])
qed

lemma draws_shape:
  "has_shape draws_r1 (n_particles swarm_3x2) (dimensions swarm_3x2)"
  "has_shape draws_r2 (n_particles swarm_3x2) (dimensions swarm_3x2)"
  by (simp_all add: has_shape_def draws_r1_def draws_r2_def swarm_3x2_def)

lemma behavior_swarm_3x2:
  "behavior swarm_3x2 ''c1'' = Some 1" "behavior swarm_3x2 ''c2'' = Some 2"
  "behavior swarm_3x2 ''w'' = Some 1"
  by (simp_all add: swarm_3x2_def)

text \<open>
  Claim C7. With behavior keys \<open>c1\<close>, \<open>c2\<close>, \<open>w\<close> and the random draws \<open>r1\<close>, \<open>r2\<close>
  given, \<open>update_velocity\<close> without a clamp returns a matrix of the shape of the swarm
  whose cell \<open>(i, j)\<close> is exactly
  \<open>w * velocity + c1 * r1 * (pbest_pos - position) + c2 * r2 * (best_pos - position)\<close>,
  the vector \<open>best_pos\<close> being the same for every particle; nothing is changed after
  the formula.
\<close>

theorem update_velocity_unclamped:
  assumes "consistent_shapes s"
    and "has_shape r1 (n_particles s) (dimensions s)"
    and "has_shape r2 (n_particles s) (dimensions s)"
    and "behavior s ''c1'' = Some c1" and "behavior s ''c2'' = Some c2"
    and "behavior s ''w'' = Some w"
    and "i < n_particles s" and "j < dimensions s"
  shows "\<exists>v. update_velocity r1 r2 s None = Inr v \<and>
           has_shape v (n_particles s) (dimensions s) \<and>
           v ! i ! j = w * velocity s ! i ! j
             + c1 * r1 ! i ! j * (pbest_pos s ! i ! j - position s ! i ! j)
             + c2 * r2 ! i ! j * (best_pos s ! j - position s ! i ! j)"
  using temp_velocity_nth [OF assms(1,2,3,7,8)] temp_velocity_shape [OF assms(1,2,3)] assms(4,5,6)
  by (simp add: update_velocity_def lookup_def Let_def)

theorem update_velocity_unclamped_witness:
  "consistent_shapes swarm_3x2 \<and>
   has_shape draws_r1 (n_particles swarm_3x2) (dimensions swarm_3x2) \<and>
   has_shape draws_r2 (n_particles swarm_3x2) (dimensions swarm_3x2) \<and>
   (0::nat) < n_particles swarm_3x2 \<and> (1::nat) < dimensions swarm_3x2 \<and>
   (\<exists>v. update_velocity draws_r1 draws_r2 swarm_3x2 None = Inr v \<and> v ! 0 ! 1 = 2)"
proof -
  have i: "(0::nat) < n_particles swarm_3x2" and j: "(1::nat) < dimensions swarm_3x2"
    by (simp_all add: swarm_3x2_def)
  have cell: "1 * velocity swarm_3x2 ! 0 ! 1
      + 1 * draws_r1 ! 0 ! 1 * (pbest_pos swarm_3x2 ! 0 ! 1 - position swarm_3x2 ! 0 ! 1)
      + 2 * draws_r2 ! 0 ! 1 * (best_pos swarm_3x2 ! 1 - position swarm_3x2 ! 0 ! 1) = 2"
    by (simp add: swarm_3x2_def draws_r1_def draws_r2_def)
  from update_velocity_unclamped [OF consistent_shapes_swarm_3x2 draws_shape behavior_swarm_3x2 i j]
  have "\<exists>v. update_velocity draws_r1 draws_r2 swarm_3x2 None = Inr v \<and> v ! 0 ! 1 = 2"
    unfolding cell by blast
  with consistent_shapes_swarm_3x2 draws_shape i j show ?thesis by blast
qed

text \<open>
  Claim C3. With a clamp \<open>(min_v, max_v)\<close>, \<open>update_velocity\<close> rejects per cell: where
  the proposed value \<open>temp_velocity\<close> of the formula lies within \<open>[min_v, max_v]\<close> the
  output cell is \<open>temp_velocity\<close>, and otherwise it is the old velocity of that cell,
  not a value cut to the boundary.
\<close>

theorem update_velocity_clamp_rejects:
  assumes "consistent_shapes s"
    and "has_shape r1 (n_particles s) (dimensions s)"
    and "has_shape r2 (n_particles s) (dimensions s)"
    and "behavior s ''c1'' = Some c1" and "behavior s ''c2'' = Some c2"
    and "behavior s ''w'' = Some w"
    and "i < n_particles s" and "j < dimensions s"
  shows "\<exists>v. update_velocity r1 r2 s (Some (min_v, max_v)) = Inr v \<and>
           has_shape v (n_particles s) (dimensions s) \<and>
           (let temp_velocity = w * velocity s ! i ! j
                  + c1 * r1 ! i ! j * (pbest_pos s ! i ! j - position s ! i ! j)
                  + c2 * r2 ! i ! j * (best_pos s ! j - position s ! i ! j)
            in v ! i ! j = (if min_v \<le> temp_velocity \<and> temp_velocity \<le> max_v
                            then temp_velocity else velocity s ! i ! j))"
proof -
  let ?n = "n_particles s" and ?d = "dimensions s"
  let ?T = "mat_add (mat_add (scalar_mult w (velocity s))
          (mat_mult (scalar_mult c1 r1) (mat_sub (pbest_pos s) (position s))))
        (mat_mult (scalar_mult c2 r2) (row_sub (best_pos s) (position s)))"
  let ?mask = "logical_and2 (mat_ge_scalar ?T min_v) (mat_le_scalar ?T max_v)"
  let ?v = "np_where2 (np_invert2 ?mask) (velocity s) ?T"
  define t where "t = w * velocity s ! i ! j
                  + c1 * r1 ! i ! j * (pbest_pos s ! i ! j - position s ! i ! j)
                  + c2 * r2 ! i ! j * (best_pos s ! j - position s ! i ! j)"
  have T: "has_shape ?T ?n ?d" by (rule temp_velocity_shape [OF assms(1,2,3)])
  have Tij: "?T ! i ! j = t"
    using temp_velocity_nth [OF assms(1,2,3,7,8)] by (simp add: t_def)
  from assms(1) have V: "has_shape (velocity s) ?n ?d" by (simp add: consistent_shapes_def)
  have ge: "has_shape (mat_ge_scalar ?T min_v) ?n ?d"
    "mat_ge_scalar ?T min_v ! i ! j = (min_v \<le> t)"
    unfolding mat_ge_scalar_def using T Tij assms(7,8)
    by (simp_all add: has_shape_map_map nth_map_map [where n = ?n and d = ?d])
  have le: "has_shape (mat_le_scalar ?T max_v) ?n ?d"
    "mat_le_scalar ?T max_v ! i ! j = (t \<le> max_v)"
    unfolding mat_le_scalar_def using T Tij assms(7,8)
    by (simp_all add: has_shape_map_map nth_map_map [where n = ?n and d = ?d])
  have mask: "has_shape ?mask ?n ?d" "?mask ! i ! j = (min_v \<le> t \<and> t \<le> max_v)"
    unfolding logical_and2_def using ge le assms(7,8)
    by (simp_all add: has_shape_map2 nth_map2_map2 [where n = ?n and d = ?d])
  have res: "update_velocity r1 r2 s (Some (min_v, max_v)) = Inr ?v"
    using assms(4,5,6) by (simp add: update_velocity_def lookup_def Let_def)
  have shape: "has_shape ?v ?n ?d"
    using mask(1) V T
    by (auto simp: has_shape_def list_all_length np_where2_def np_where_def
        np_invert2_def np_invert_def)
  have "?v ! i ! j = (if min_v \<le> t \<and> t \<le> max_v then t else velocity s ! i ! j)"
    using mask V T Tij assms(7,8)
    by (auto simp: has_shape_def list_all_length np_where2_def np_where_def
        np_invert2_def np_invert_def)
  with res shape show ?thesis unfolding Let_def t_def by blast
qed

text \<open>Cell \<open>(0, 1)\<close> of the example: the proposed value 2 exceeds the maximum \<open>3/2\<close>,
  and the output is the old velocity 1, not \<open>3/2\<close>.\<close>

theorem update_velocity_clamp_rejects_witness:
  "consistent_shapes swarm_3x2 \<and>
   has_shape draws_r1 (n_particles swarm_3x2) (dimensions swarm_3x2) \<and>
   has_shape draws_r2 (n_particles swarm_3x2) (dimensions swarm_3x2) \<and>
   (0::nat) < n_particles swarm_3x2 \<and> (1::nat) < dimensions swarm_3x2 \<and>
   (\<exists>v. update_velocity draws_r1 draws_r2 swarm_3x2 (Some (-1, 3/2)) = Inr v \<and> v ! 0 ! 1 = 1)"
proof -
  have i: "(0::nat) < n_particles swarm_3x2" and j: "(1::nat) < dimensions swarm_3x2"
    by (simp_all add: swarm_3x2_def)
  have cell: "1 * velocity swarm_3x2 ! 0 ! 1
      + 1 * draws_r1 ! 0 ! 1 * (pbest_pos swarm_3x2 ! 0 ! 1 - position swarm_3x2 ! 0 ! 1)
      + 2 * draws_r2 ! 0 ! 1 * (best_pos swarm_3x2 ! 1 - position swarm_3x2 ! 0 ! 1) = 2"
    by (simp add: swarm_3x2_def draws_r1_def draws_r2_def)
  have old: "velocity swarm_3x2 ! 0 ! 1 = 1" by (simp add: swarm_3x2_def)
  from update_velocity_clamp_rejects
    [OF consistent_shapes_swarm_3x2 draws_shape behavior_swarm_3x2 i j, of "-1" "3/2"]
  have "\<exists>v. update_velocity draws_r1 draws_r2 swarm_3x2 (Some (-1, 3/2)) = Inr v \<and>
          v ! 0 ! 1 = (if -1 \<le> (2::real) \<and> (2::real) \<le> 3/2 then 2
                       else velocity swarm_3x2 ! 0 ! 1)"
    unfolding cell Let_def by blast
  then have "\<exists>v. update_velocity draws_r1 draws_r2 swarm_3x2 (Some (-1, 3/2)) = Inr v \<and>
          v ! 0 ! 1 = 1"
    using old by simp
  with consistent_shapes_swarm_3x2 draws_shape i j show ?thesis by blast
qed

subsection \<open>update_position\<close>

lemma list_all_map2_le:
  "length xs = length ys \<Longrightarrow>
   list_all (\<lambda>b. b) (map2 (\<le>) xs ys) = (\<forall>j<length xs. xs ! j \<le> (ys ! j :: real))"
  by (simp add: list_all_length)

lemma temp_position_shape:
  assumes "consistent_shapes s"
  shows "has_shape (mat_add (position s) (velocity s)) (n_particles s) (dimensions s)"
  using assms unfolding consistent_shapes_def mat_add_def by (simp add: has_shape_map2)

lemma temp_position_row:
  assumes "consistent_shapes s" "i < n_particles s"
  shows "mat_add (position s) (velocity s) ! i = map2 (+) (position s ! i) (velocity s ! i)"
  using assms unfolding consistent_shapes_def mat_add_def has_shape_def by simp

text \<open>
  Claim C4. With bounds \<open>(lb, ub)\<close> of length \<open>dimensions\<close>, \<open>update_position\<close> rejects
  per particle: when every dimension of \<open>position[i] + velocity[i]\<close> lies within its
  bounds the output row is that sum, and when one dimension violates its bound the whole
  output row is the old \<open>position[i]\<close>, the dimensions within their bounds included.
\<close>

theorem update_position_rejects_particle:
  assumes cs: "consistent_shapes s"
    and lb: "length lb = dimensions s" and ub: "length ub = dimensions s"
    and i: "i < n_particles s"
  shows "length (update_position s (Some (lb, ub))) = n_particles s \<and>
         update_position s (Some (lb, ub)) ! i =
           (if \<forall>j<dimensions s. lb ! j \<le> position s ! i ! j + velocity s ! i ! j \<and>
                                position s ! i ! j + velocity s ! i ! j \<le> ub ! j
            then map2 (+) (position s ! i) (velocity s ! i)
            else position s ! i)"
proof -
  let ?n = "n_particles s" and ?d = "dimensions s"
  let ?T = "mat_add (position s) (velocity s)"
  let ?lo = "all_axis1 (mat_le (repeat_axis0 lb ?n) ?T)"
  let ?hi = "all_axis1 (mat_le ?T (repeat_axis0 ub ?n))"
  let ?mask = "map2 (\<and>) ?lo ?hi"
  from cs have X: "has_shape (position s) ?n ?d" and V: "has_shape (velocity s) ?n ?d"
    by (simp_all add: consistent_shapes_def)
  have T: "has_shape ?T ?n ?d" by (rule temp_position_shape [OF cs])
  have Ti: "?T ! i = map2 (+) (position s ! i) (velocity s ! i)"
    by (rule temp_position_row [OF cs i])
  have lenTi: "length (?T ! i) = ?d" using T i by (rule has_shape_nth)
  have lenX: "length (position s ! i) = ?d" using X i by (rule has_shape_nth)
  have lenV: "length (velocity s ! i) = ?d" using V i by (rule has_shape_nth)
  have Tij: "?T ! i ! j = position s ! i ! j + velocity s ! i ! j" if "j < ?d" for j
    using that lenX lenV by (simp add: Ti)
  have len_lo: "length ?lo = ?n" and len_hi: "length ?hi = ?n"
    using T by (simp_all add: all_axis1_def mat_le_def repeat_axis0_def has_shape_def)
  have lo: "?lo ! i = (\<forall>j<?d. lb ! j \<le> position s ! i ! j + velocity s ! i ! j)"
    using T i lb lenTi Tij
    by (simp add: all_axis1_def mat_le_def repeat_axis0_def has_shape_def list_all_map2_le)
  have hi: "?hi ! i = (\<forall>j<?d. position s ! i ! j + velocity s ! i ! j \<le> ub ! j)"
    using T i ub lenTi Tij
    by (simp add: all_axis1_def mat_le_def repeat_axis0_def has_shape_def list_all_map2_le)
  have len_mask: "length ?mask = ?n" using len_lo len_hi by simp
  have mask: "?mask ! i = (\<forall>j<?d. lb ! j \<le> position s ! i ! j + velocity s ! i ! j \<and>
                                position s ! i ! j + velocity s ! i ! j \<le> ub ! j)"
    using len_lo len_hi i lo hi by auto
  have res: "update_position s (Some (lb, ub)) =
      np_where2 (np_invert2 (repeat_axis1 ?mask ?d)) (position s) ?T"
    by (simp add: update_position_def Let_def)
  have len: "length (update_position s (Some (lb, ub))) = ?n"
    unfolding res using len_mask X T
    by (simp add: length_np_where2 np_invert2_def repeat_axis1_def has_shape_def)
  have "update_position s (Some (lb, ub)) ! i =
      np_where (replicate ?d (\<not> ?mask ! i)) (position s ! i) (?T ! i)"
    unfolding res using len_mask X T i
    by (simp add: nth_np_where2 np_invert2_def np_invert_def repeat_axis1_def has_shape_def)
  also have "\<dots> = (if \<not> ?mask ! i then position s ! i else ?T ! i)"
    using lenX lenTi by (rule np_where_replicate)
  finally have "update_position s (Some (lb, ub)) ! i =
      (if ?mask ! i then map2 (+) (position s ! i) (velocity s ! i) else position s ! i)"
    using Ti by simp
  then have "update_position s (Some (lb, ub)) ! i =
      (if \<forall>j<?d. lb ! j \<le> position s ! i ! j + velocity s ! i ! j \<and>
                      position s ! i ! j + velocity s ! i ! j \<le> ub ! j
       then map2 (+) (position s ! i) (velocity s ! i) else position s ! i)"
    by (simp only: mask)
  with len show ?thesis by (rule conjI)
qed

text \<open>Particle 1 of the example: dimension 0 of the proposed position is within its
  bounds, dimension 1 is not, and the whole row keeps the old position.\<close>

theorem update_position_rejects_particle_witness:
  "consistent_shapes swarm_3x2 \<and> length [0, 0 :: real] = dimensions swarm_3x2 \<and>
   length [2, 3/2 :: real] = dimensions swarm_3x2 \<and> (1::nat) < n_particles swarm_3x2 \<and>
   map2 (+) (position swarm_3x2 ! 1) (velocity swarm_3x2 ! 1) = [3/2, 2] \<and>
   update_position swarm_3x2 (Some ([0, 0], [2, 3/2])) ! 1 = [1, 0]"
proof -
  have lb: "length [0, 0 :: real] = dimensions swarm_3x2"
    and ub: "length [2, 3/2 :: real] = dimensions swarm_3x2"
    and i: "(1::nat) < n_particles swarm_3x2"
    and temp: "map2 (+) (position swarm_3x2 ! 1) (velocity swarm_3x2 ! 1) = [3/2, 2]"
    and old: "position swarm_3x2 ! 1 = [1, 0]"
    by (simp_all add: swarm_3x2_def)
  have "\<not> (position swarm_3x2 ! 1 ! 1 + velocity swarm_3x2 ! 1 ! 1 \<le> [2, 3/2 :: real] ! 1)"
    by (simp add: swarm_3x2_def)
  moreover have "(1::nat) < dimensions swarm_3x2" by (simp add: swarm_3x2_def)
  ultimately have viol: "(\<forall>j<dimensions swarm_3x2.
      [0, 0] ! j \<le> position swarm_3x2 ! 1 ! j + velocity swarm_3x2 ! 1 ! j \<and>
      position swarm_3x2 ! 1 ! j + velocity swarm_3x2 ! 1 ! j \<le> [2, 3/2] ! j) = False"
    by blast
  from update_position_rejects_particle [OF consistent_shapes_swarm_3x2 lb ub i]
  have "update_position swarm_3x2 (Some ([0, 0], [2, 3/2])) ! 1 = position swarm_3x2 ! 1"
    by (simp only: viol if_False)
  then have "update_position swarm_3x2 (Some ([0, 0], [2, 3/2])) ! 1 = [1, 0]"
    by (simp only: old)
  with consistent_shapes_swarm_3x2 lb ub i temp show ?thesis by blast
qed

subsection \<open>The nearest-neighbour query\<close>

lemma minkowski_sum_nonneg: "0 \<le> (\<Sum>(a, b) \<leftarrow> zip x y. \<bar>a - b\<bar> ^ n :: real)"
  by (rule sum_list_nonneg) auto

lemma minkowski_distance_nonneg: "0 \<le> minkowski_distance p x y"
  unfolding minkowski_distance_def by (rule real_root_ge_zero) (rule minkowski_sum_nonneg)

lemma minkowski_distance_self: "1 \<le> p \<Longrightarrow> minkowski_distance p x x = 0"
proof -
  assume p: "1 \<le> p"
  then have n: "0 < nat p" by simp
  have "(\<Sum>(a, b) \<leftarrow> zip x x. \<bar>a - b\<bar> ^ nat p :: real) = 0"
    using n by (induction x) auto
  then show ?thesis by (simp add: minkowski_distance_def)
qed

lemma minkowski_sum_zero:
  assumes "length x = length y" "0 < n"
    and "(\<Sum>(a, b) \<leftarrow> zip x y. \<bar>a - b\<bar> ^ n :: real) = 0"
  shows "x = y"
  using assms
proof (induction x y rule: list_induct2)
  case Nil
  then show ?case by simp
next
  case (Cons a x b y)
  have t: "0 \<le> \<bar>a - b\<bar> ^ n" by simp
  have r: "0 \<le> (\<Sum>(a, b) \<leftarrow> zip x y. \<bar>a - b\<bar> ^ n :: real)" by (rule minkowski_sum_nonneg)
  from Cons.prems(2) have "\<bar>a - b\<bar> ^ n + (\<Sum>(a, b) \<leftarrow> zip x y. \<bar>a - b\<bar> ^ n) = 0" by simp
  with t r have "\<bar>a - b\<bar> ^ n = 0" and "(\<Sum>(a, b) \<leftarrow> zip x y. \<bar>a - b\<bar> ^ n) = 0"
    by linarith+
  with Cons.IH Cons.prems(1) show ?case by simp
qed

lemma minkowski_distance_zero:
  assumes "length x = length y" "1 \<le> p" "minkowski_distance p x y = 0"
  shows "x = y"
proof -
  from assms(2) have n: "0 < nat p" by simp
  from assms(3) n have "(\<Sum>(a, b) \<leftarrow> zip x y. \<bar>a - b\<bar> ^ nat p :: real) = 0"
    by (simp add: minkowski_distance_def)
  with assms(1) n show ?thesis by (rule minkowski_sum_zero)
qed

lemma knn_row_self:
  assumes row: "knn_row pos p k i row" and k: "0 < k" and p: "1 \<le> p"
    and i: "i < length pos" and dist: "distinct pos"
    and shape: "has_shape pos (length pos) d"
  shows "i \<in> set row"
proof (rule ccontr)
  assume notin: "i \<notin> set row"
  from row k obtain m where m: "m \<in> set row" by (cases row) (auto simp: knn_row_def)
  from row m have m_lt: "m < length pos" by (auto simp: knn_row_def list_all_iff)
  from row i notin m
  have "minkowski_distance p (pos ! i) (pos ! m) \<le> minkowski_distance p (pos ! i) (pos ! i)"
    by (auto simp: knn_row_def list_all_iff)
  with minkowski_distance_self [OF p] minkowski_distance_nonneg [of p "pos ! i" "pos ! m"]
  have "minkowski_distance p (pos ! i) (pos ! m) = 0" by simp
  moreover have "length (pos ! i) = length (pos ! m)"
    using shape i m_lt by (simp add: has_shape_nth)
  ultimately have "pos ! i = pos ! m" using p by (intro minkowski_distance_zero)
  with dist i m_lt have "i = m" by (simp add: nth_eq_iff_index_eq)
  with m notin show False by simp
qed

subsection \<open>update_gbest_neighborhood\<close>

lemma take_idx_ok:
  "list_all (\<lambda>j. j < length xs) js \<Longrightarrow> take_idx xs js = Inr (map (\<lambda>j. xs ! j) js)"
  by (simp add: take_idx_def)

lemma row_best_in_row:
  assumes "row \<noteq> []"
  shows "row ! argmin_list (map f row) \<in> set row"
    and "\<forall>m\<in>set row. f (row ! argmin_list (map f row)) \<le> f m"
proof -
  let ?a = "argmin_list (map f row)"
  from assms have ne: "map f row \<noteq> []" by simp
  from argmin_list_spec(1) [OF ne] have a: "?a < length row" by simp
  then show "row ! ?a \<in> set row" by simp
  show "\<forall>m\<in>set row. f (row ! ?a) \<le> f m"
  proof
    fix m assume "m \<in> set row"
    then obtain j where j: "j < length row" "row ! j = m" by (auto simp: in_set_conv_nth)
    with argmin_list_spec(2) [OF ne] a show "f (row ! ?a) \<le> f m" by fastforce
  qed
qed

lemma map2_nth_same:
  "map2 (\<lambda>row m. row ! m) rows (map g rows) = map (\<lambda>row. row ! g row) rows"
  by (induction rows) simp_all

lemma best_neighbor_rows:
  assumes "k \<noteq> 1"
    and "\<forall>row\<in>set rows. row \<noteq> [] \<and> (\<forall>j\<in>set row. j < length (pbest_cost s))"
  shows "best_neighbor s k (Idx2 rows) =
           Inr (map (\<lambda>row. row ! argmin_list (map (\<lambda>j. pbest_cost s ! j) row)) rows)"
proof -
  have t: "take_idx2 (pbest_cost s) rows = Inr (map (map (\<lambda>j. pbest_cost s ! j)) rows)"
    using assms(2) by (simp add: take_idx2_def list_all_iff)
  have a: "argmin_axis1 (map (map (\<lambda>j. pbest_cost s ! j)) rows) =
             Inr (map argmin_list (map (map (\<lambda>j. pbest_cost s ! j)) rows))"
    using assms(2) by (simp add: argmin_axis1_def list_all_iff)
  show ?thesis using assms(1) by (simp add: best_neighbor_def t a map2_nth_same)
qed

lemma neighborhood_result_rows:
  assumes k: "k \<noteq> 1" and q: "query (position s) p k = Inr (Idx2 rows)"
    and ne: "rows \<noteq> []"
    and valid: "\<forall>row\<in>set rows. row \<noteq> [] \<and> (\<forall>j\<in>set row. j < length (pbest_cost s))"
    and len: "length rows \<le> length (pbest_pos s)"
    and bn: "bn = map (\<lambda>row. row ! argmin_list (map (\<lambda>j. pbest_cost s ! j) row)) rows"
    and costs: "costs = map (\<lambda>b. pbest_cost s ! b) bn"
  shows "update_gbest_neighborhood query s p k =
           Inr (pbest_pos s ! argmin_list costs, Min (set costs))"
proof -
  have b: "best_neighbor s k (Idx2 rows) = Inr bn"
    unfolding bn by (rule best_neighbor_rows [OF k valid])
  have "\<forall>b\<in>set bn. b < length (pbest_cost s)"
    unfolding bn using valid row_best_in_row(1) by fastforce
  then have t: "take_idx (pbest_cost s) bn = Inr costs"
    unfolding costs by (simp add: take_idx_ok list_all_iff)
  have cne: "costs \<noteq> []" using ne by (simp add: costs bn)
  have j: "argmin_list costs < length (pbest_pos s)"
    using argmin_list_spec(1) [OF cne] len by (simp add: costs bn)
  show ?thesis
    using cne j by (simp add: update_gbest_neighborhood_def q b t np_min_Min np_argmin_def getitem_def)
qed

lemma argmin_from_replicate: "argmin_from bi c i (replicate m c) = bi"
  by (induction m arbitrary: i) simp_all

lemma funpow_min_same: "(min c ^^ m) c = (c::real)"
  by (induction m) simp_all

lemma np_min_replicate: "0 < n \<Longrightarrow> np_min (replicate n c) = Inr c"
  by (cases n) (simp_all add: np_min_def funpow_min_same)

lemma np_argmin_replicate: "0 < n \<Longrightarrow> np_argmin (replicate n c) = Inr 0"
  by (cases n) (simp_all add: np_argmin_def argmin_from_replicate)

lemma neighborhood_result_k1:
  assumes q: "query (position s) p 1 = Inr (Idx1 js)"
    and ne: "js \<noteq> []"
    and valid: "list_all (\<lambda>j. j < length (pbest_cost s)) js"
    and pos: "pbest_pos s \<noteq> []"
  shows "best_neighbor s 1 (Idx1 js) = Inr (replicate (length js) 0)"
    and "update_gbest_neighborhood query s p 1 = Inr (pbest_pos s ! 0, pbest_cost s ! 0)"
proof -
  show b: "best_neighbor s 1 (Idx1 js) = Inr (replicate (length js) 0)"
    using valid by (simp add: best_neighbor_def take_idx_ok map_replicate_const)
  from ne valid have c0: "0 < length (pbest_cost s)" by (cases js) auto
  from ne have n: "0 < length js" by simp
  have t: "take_idx (pbest_cost s) (replicate (length js) 0)
             = Inr (replicate (length js) (pbest_cost s ! 0))"
    using c0 by (simp add: take_idx_def list_all_iff)
  have g: "getitem (pbest_pos s) 0 = Inr (pbest_pos s ! 0)"
    using pos by (simp add: getitem_def)
  show "update_gbest_neighborhood query s p 1 = Inr (pbest_pos s ! 0, pbest_cost s ! 0)"
    by (simp only: update_gbest_neighborhood_def q b t np_min_replicate [OF n]
        np_argmin_replicate [OF n] g sum.case)
qed

lemma update_gbest_eq:
  assumes "pbest_cost s \<noteq> []" and "length (pbest_pos s) = length (pbest_cost s)"
  shows "update_gbest s = Inr (pbest_pos s ! argmin_list (pbest_cost s), Min (set (pbest_cost s)))"
  using assms argmin_list_spec(1) [OF assms(1)]
  by (simp add: update_gbest_def np_argmin_def getitem_def np_min_Min)

lemma knn_result_Idx2:
  assumes "knn_result pos p k idx" "k \<noteq> 1"
  obtains rows where "idx = Idx2 rows" "1 < k" "length rows = length pos"
    "\<forall>i<length pos. knn_row pos p (nat k) i (rows ! i)"
  using assms by (cases idx) (auto simp: knn_result_def list_all_iff)

lemma knn_result_Idx1:
  assumes "knn_result pos p 1 idx"
  obtains js where "idx = Idx1 js" "length js = length pos"
    "\<forall>i<length pos. knn_row pos p 1 i [js ! i]"
  using assms by (cases idx) (auto simp: knn_result_def list_all_iff)

lemma knn_rows_valid:
  assumes "length rows = length pos" "0 < k"
    and "\<forall>i<length pos. knn_row pos p k i (rows ! i)"
  shows "\<forall>row\<in>set rows. row \<noteq> [] \<and> (\<forall>j\<in>set row. j < length pos)"
proof
  fix row assume "row \<in> set rows"
  then obtain i where "i < length rows" "rows ! i = row" by (auto simp: in_set_conv_nth)
  with assms have "knn_row pos p k i row" by auto
  with assms(2) show "row \<noteq> [] \<and> (\<forall>j\<in>set row. j < length pos)"
    by (auto simp: knn_row_def list_all_iff)
qed

lemma upt_3: "[0..<3] = [0, 1, 2]"
  by (simp add: eval_nat_numeral)

lemma upt_2: "[0..<2] = [0, 1]"
  by (simp add: eval_nat_numeral)

lemma knn_swarm_3x2:
  "knn_result (position swarm_3x2) 2 2 (Idx2 [[0, 1], [1, 0], [2, 1]])"
  by (simp add: knn_result_def knn_row_def minkowski_distance_def swarm_3x2_def upt_3)

lemma knn_swarm_3x2_p3:
  "knn_result (position swarm_3x2) 3 2 (Idx2 [[0, 1], [1, 0], [2, 1]])"
  by (simp add: knn_result_def knn_row_def minkowski_distance_def swarm_3x2_def upt_3)

lemma knn_swarm_2x1_k2:
  "knn_result (position swarm_2x1) 2 2 (Idx2 [[0, 1], [1, 0]])"
  by (simp add: knn_result_def knn_row_def minkowski_distance_def swarm_2x1_def upt_2)

lemma knn_swarm_2x1_k1:
  "knn_result (position swarm_2x1) 2 1 (Idx1 [0, 1])"
  by (simp add: knn_result_def knn_row_def minkowski_distance_def swarm_2x1_def upt_2)

lemma neighborhood_swarm_3x2:
  "update_gbest_neighborhood (const_query (Idx2 [[0, 1], [1, 0], [2, 1]])) swarm_3x2 p 2
     = Inr ([0, 1], 1)"
  "best_neighbor swarm_3x2 2 (Idx2 [[0, 1], [1, 0], [2, 1]]) = Inr [1, 1, 1]"
  by (simp_all add: update_gbest_neighborhood_def best_neighbor_def const_query_def
      take_idx_def take_idx2_def argmin_axis1_def np_min_def np_argmin_def getitem_def
      swarm_3x2_def)

lemma neighborhood_swarm_2x1_k2:
  "update_gbest_neighborhood (const_query (Idx2 [[0, 1], [1, 0]])) swarm_2x1 2 2 = Inr ([0], 1)"
  by (simp add: update_gbest_neighborhood_def best_neighbor_def const_query_def
      take_idx_def take_idx2_def argmin_axis1_def np_min_def np_argmin_def getitem_def
      swarm_2x1_def)

lemma neighborhood_swarm_2x1_k1:
  "update_gbest_neighborhood (const_query (Idx1 [0, 1])) swarm_2x1 2 1 = Inr ([0], 2)"
  "best_neighbor swarm_2x1 1 (Idx1 [0, 1]) = Inr [0, 0]"
  by (simp_all add: update_gbest_neighborhood_def best_neighbor_def const_query_def
      take_idx_def take_idx2_def argmin_axis1_def np_min_def np_argmin_def getitem_def
      swarm_2x1_def)

lemma distinct_swarm_3x2: "distinct (position swarm_3x2)"
  by (simp add: swarm_3x2_def)

lemma const_query_answer: "const_query idx pos p k = Inr idx"
  by (simp add: const_query_def)

text \<open>
  Claim C5. For \<open>1 < k < n_particles\<close>, with \<open>best_neighbor[i]\<close> the neighbour of
  particle \<open>i\<close> of least \<open>pbest_cost\<close>, \<open>update_gbest_neighborhood\<close> returns
  \<open>best_cost = min (pbest_cost[best_neighbor])\<close> and \<open>best_pos = pbest_pos[j]\<close>, where
  \<open>j\<close> is the first particle whose best neighbour has that least cost: the position is
  the one of particle \<open>j\<close>, not of its best neighbour \<open>best_neighbor[j]\<close>.
\<close>

theorem update_gbest_neighborhood_reduction:
  assumes cs: "consistent_shapes s"
    and k: "1 < k" "k < int (n_particles s)"
    and q: "query (position s) p k = Inr idx"
    and knn: "knn_result (position s) p k idx"
  shows "\<exists>rows bn j. idx = Idx2 rows \<and> best_neighbor s k idx = Inr bn \<and>
           length bn = n_particles s \<and>
           (\<forall>i<n_particles s. bn ! i \<in> set (rows ! i) \<and>
              (\<forall>m\<in>set (rows ! i). pbest_cost s ! (bn ! i) \<le> pbest_cost s ! m)) \<and>
           j < n_particles s \<and>
           update_gbest_neighborhood query s p k =
             Inr (pbest_pos s ! j, Min (set (map (\<lambda>b. pbest_cost s ! b) bn))) \<and>
           pbest_cost s ! (bn ! j) = Min (set (map (\<lambda>b. pbest_cost s ! b) bn)) \<and>
           (\<forall>i<j. pbest_cost s ! (bn ! j) < pbest_cost s ! (bn ! i))"
proof -
  let ?n = "n_particles s"
  from cs have lens: "length (position s) = ?n" "length (pbest_cost s) = ?n"
    "length (pbest_pos s) = ?n"
    by (simp_all add: consistent_shapes_def has_shape_def)
  from k have k1: "k \<noteq> 1" and n: "0 < ?n" by simp_all
  from knn k1 obtain rows where idx: "idx = Idx2 rows" and lr: "length rows = length (position s)"
    and rows: "\<forall>i<length (position s). knn_row (position s) p (nat k) i (rows ! i)"
    by (rule knn_result_Idx2)
  from k have "0 < nat k" by simp
  from knn_rows_valid [OF lr this rows] lens
  have valid: "\<forall>row\<in>set rows. row \<noteq> [] \<and> (\<forall>j\<in>set row. j < length (pbest_cost s))"
    by simp
  define bn where "bn = map (\<lambda>row. row ! argmin_list (map (\<lambda>j. pbest_cost s ! j) row)) rows"
  define costs where "costs = map (\<lambda>b. pbest_cost s ! b) bn"
  let ?j = "argmin_list costs"
  have ne: "rows \<noteq> []" using lr lens n by auto
  have len: "length rows \<le> length (pbest_pos s)" using lr lens by simp
  have b: "best_neighbor s k idx = Inr bn"
    unfolding idx bn_def by (rule best_neighbor_rows [OF k1 valid])
  have lbn: "length bn = ?n" using lr lens by (simp add: bn_def)
  have res: "update_gbest_neighborhood query s p k = Inr (pbest_pos s ! ?j, Min (set costs))"
    using q unfolding idx by (rule neighborhood_result_rows [OF k1 _ ne valid len bn_def costs_def])
  have cne: "costs \<noteq> []" using ne by (simp add: costs_def bn_def)
  have j: "?j < ?n" using argmin_list_spec(1) [OF cne] lbn by (simp add: costs_def)
  have per: "\<forall>i<?n. bn ! i \<in> set (rows ! i) \<and>
              (\<forall>m\<in>set (rows ! i). pbest_cost s ! (bn ! i) \<le> pbest_cost s ! m)"
  proof (intro allI impI)
    fix i assume i: "i < ?n"
    then have "rows ! i \<in> set rows" using lr lens by simp
    with valid have "rows ! i \<noteq> []" by blast
    from row_best_in_row [OF this, of "\<lambda>j. pbest_cost s ! j"] i lr lens
    show "bn ! i \<in> set (rows ! i) \<and>
              (\<forall>m\<in>set (rows ! i). pbest_cost s ! (bn ! i) \<le> pbest_cost s ! m)"
      by (simp add: bn_def)
  qed
  have cj: "pbest_cost s ! (bn ! ?j) = Min (set costs)"
    using nth_argmin_list [OF cne] j lbn by (simp add: costs_def)
  have first: "\<forall>i<?j. pbest_cost s ! (bn ! ?j) < pbest_cost s ! (bn ! i)"
    using argmin_list_spec(3) [OF cne] j lbn by (simp add: costs_def)
  from idx b lbn per j res cj first show ?thesis unfolding costs_def by blast
qed

text \<open>In the example every particle has particle 1 as best neighbour; the cost 1 is
  the one of particle 1, the returned position \<open>[0, 1]\<close> is the one of particle 0.\<close>

theorem update_gbest_neighborhood_reduction_witness:
  "consistent_shapes swarm_3x2 \<and> (1::int) < 2 \<and> 2 < int (n_particles swarm_3x2) \<and>
   const_query (Idx2 [[0, 1], [1, 0], [2, 1]]) (position swarm_3x2) 2 2 = Inr (Idx2 [[0, 1], [1, 0], [2, 1]]) \<and>
   knn_result (position swarm_3x2) 2 2 (Idx2 [[0, 1], [1, 0], [2, 1]]) \<and>
   (\<exists>bn j. best_neighbor swarm_3x2 2 (Idx2 [[0, 1], [1, 0], [2, 1]]) = Inr bn \<and> j < n_particles swarm_3x2 \<and>
      update_gbest_neighborhood (const_query (Idx2 [[0, 1], [1, 0], [2, 1]])) swarm_3x2 2 2
        = Inr (pbest_pos swarm_3x2 ! j, 1) \<and>
      pbest_pos swarm_3x2 ! j \<noteq> pbest_pos swarm_3x2 ! (bn ! j))"
proof -
  have k: "(1::int) < 2" "2 < int (n_particles swarm_3x2)" by (simp_all add: swarm_3x2_def)
  have q: "const_query (Idx2 [[0, 1], [1, 0], [2, 1]]) (position swarm_3x2) 2 2 = Inr (Idx2 [[0, 1], [1, 0], [2, 1]])"
    by (rule const_query_answer)
  from update_gbest_neighborhood_reduction
    [where query = "const_query (Idx2 [[0, 1], [1, 0], [2, 1]])" and s = swarm_3x2
      and p = 2 and k = 2, OF consistent_shapes_swarm_3x2 k q knn_swarm_3x2]
  obtain bn j where b: "best_neighbor swarm_3x2 2 (Idx2 [[0, 1], [1, 0], [2, 1]]) = Inr bn"
    and j: "j < n_particles swarm_3x2"
    and res: "update_gbest_neighborhood (const_query (Idx2 [[0, 1], [1, 0], [2, 1]])) swarm_3x2 2 2
        = Inr (pbest_pos swarm_3x2 ! j, Min (set (map (\<lambda>b. pbest_cost swarm_3x2 ! b) bn)))"
    by blast
  from b neighborhood_swarm_3x2(2) have bn: "bn = [1, 1, 1]" by simp
  from res neighborhood_swarm_3x2(1) [of 2]
  have pj: "pbest_pos swarm_3x2 ! j = [0, 1]"
    and c: "Min (set (map (\<lambda>b. pbest_cost swarm_3x2 ! b) bn)) = 1"
    by simp_all
  from j have "j < 3" by (simp add: swarm_3x2_def)
  then have "bn ! j = 1" unfolding bn by (auto simp: less_Suc_eq eval_nat_numeral)
  moreover have "pbest_pos swarm_3x2 ! 1 = [1, 1]" by (simp add: swarm_3x2_def)
  ultimately have "pbest_pos swarm_3x2 ! j \<noteq> pbest_pos swarm_3x2 ! (bn ! j)"
    using pj by simp
  with b j res c consistent_shapes_swarm_3x2 k q knn_swarm_3x2 show ?thesis by auto
qed

text \<open>
  Claim C9. When the positions are pairwise distinct and \<open>1 < k < n_particles\<close>, the
  cost returned by \<open>update_gbest_neighborhood\<close> is the cost returned by \<open>update_gbest\<close>,
  the minimum of \<open>pbest_cost\<close>: every particle is among its own nearest neighbours, so
  the particle with the least cost selects itself. Stated for every order \<open>p \<ge> 1\<close> of the
  metric and every answer of the query that lists \<open>k\<close> nearest neighbours.
\<close>

theorem neighborhood_cost_equals_global_cost:
  assumes cs: "consistent_shapes s"
    and dist: "distinct (position s)"
    and k: "1 < k" "k < int (n_particles s)"
    and p: "1 \<le> p"
    and q: "query (position s) p k = Inr idx"
    and knn: "knn_result (position s) p k idx"
  shows "\<exists>pos_n pos_g. 
           update_gbest_neighborhood query s p k = Inr (pos_n, Min (set (pbest_cost s))) \<and>
           update_gbest s = Inr (pos_g, Min (set (pbest_cost s)))"
proof -
  let ?n = "n_particles s" and ?pc = "pbest_cost s"
  from cs have lens: "length (position s) = ?n" "length ?pc = ?n" "length (pbest_pos s) = ?n"
    and shape: "has_shape (position s) (length (position s)) (dimensions s)"
    by (simp_all add: consistent_shapes_def has_shape_def)
  from k have k1: "k \<noteq> 1" and n: "0 < ?n" and kpos: "0 < nat k" by simp_all
  from knn k1 obtain rows where idx: "idx = Idx2 rows" and lr: "length rows = length (position s)"
    and rows: "\<forall>i<length (position s). knn_row (position s) p (nat k) i (rows ! i)"
    by (rule knn_result_Idx2)
  from knn_rows_valid [OF lr kpos rows] lens
  have valid: "\<forall>row\<in>set rows. row \<noteq> [] \<and> (\<forall>j\<in>set row. j < length ?pc)"
    by simp
  define bn where "bn = map (\<lambda>row. row ! argmin_list (map (\<lambda>j. ?pc ! j) row)) rows"
  define costs where "costs = map (\<lambda>b. ?pc ! b) bn"
  have ne: "rows \<noteq> []" using lr lens n by auto
  have len: "length rows \<le> length (pbest_pos s)" using lr lens by simp
  have res: "update_gbest_neighborhood query s p k
               = Inr (pbest_pos s ! argmin_list costs, Min (set costs))"
    using q unfolding idx by (rule neighborhood_result_rows [OF k1 _ ne valid len bn_def costs_def])
  have pne: "?pc \<noteq> []" using lens n by auto
  have glob: "update_gbest s = Inr (pbest_pos s ! argmin_list ?pc, Min (set ?pc))"
    using pne lens by (intro update_gbest_eq) simp_all
  have cne: "costs \<noteq> []" using ne by (simp add: costs_def bn_def)
  have lbn: "length bn = ?n" using lr lens by (simp add: bn_def)
  have bn_row: "bn ! i \<in> set (rows ! i) \<and> (\<forall>m\<in>set (rows ! i). ?pc ! (bn ! i) \<le> ?pc ! m)"
    if i: "i < ?n" for i
  proof -
    from i have "rows ! i \<in> set rows" using lr lens by simp
    with valid have "rows ! i \<noteq> []" by blast
    from row_best_in_row [OF this, of "\<lambda>j. ?pc ! j"] i lr lens
    show ?thesis by (simp add: bn_def)
  qed
  have self: "i \<in> set (rows ! i)" if i: "i < ?n" for i
  proof -
    from i rows lens have "knn_row (position s) p (nat k) i (rows ! i)" by simp
    then show ?thesis using kpos p _ dist shape by (rule knn_row_self) (use i lens in simp)
  qed
  have "Min (set costs) = Min (set ?pc)"
  proof (rule antisym)
    let ?g = "argmin_list ?pc"
    have g: "?g < ?n" using argmin_list_spec(1) [OF pne] lens by simp
    have "costs ! ?g \<in> set costs" using g lbn by (simp add: costs_def)
    then have "Min (set costs) \<le> costs ! ?g" by simp
    also have "costs ! ?g = ?pc ! (bn ! ?g)" using g lbn by (simp add: costs_def)
    also have "\<dots> \<le> ?pc ! ?g" using bn_row [OF g] self [OF g] by blast
    also have "\<dots> = Min (set ?pc)" by (rule nth_argmin_list [OF pne])
    finally show "Min (set costs) \<le> Min (set ?pc)" .
  next
    have "set costs \<subseteq> set ?pc"
    proof
      fix c assume "c \<in> set costs"
      then obtain i where i: "i < ?n" and c: "c = ?pc ! (bn ! i)"
        using lbn by (auto simp: costs_def in_set_conv_nth)
      from bn_row [OF i] have "bn ! i \<in> set (rows ! i)" by blast
      moreover from i have "rows ! i \<in> set rows" using lr lens by simp
      ultimately have "bn ! i < length ?pc" using valid by blast
      with c show "c \<in> set ?pc" by simp
    qed
    then show "Min (set ?pc) \<le> Min (set costs)" using cne by (intro Min_antimono) simp_all
  qed
  with res glob show ?thesis by auto
qed

theorem neighborhood_cost_equals_global_cost_witness:
  "consistent_shapes swarm_3x2 \<and> distinct (position swarm_3x2) \<and>
   (1::int) < 2 \<and> 2 < int (n_particles swarm_3x2) \<and> (1::int) \<le> 2 \<and>
   const_query (Idx2 [[0, 1], [1, 0], [2, 1]]) (position swarm_3x2) 2 2 = Inr (Idx2 [[0, 1], [1, 0], [2, 1]]) \<and>
   knn_result (position swarm_3x2) 2 2 (Idx2 [[0, 1], [1, 0], [2, 1]]) \<and>
   Min (set (pbest_cost swarm_3x2)) = 1 \<and>
   (\<exists>pos_n pos_g.
      update_gbest_neighborhood (const_query (Idx2 [[0, 1], [1, 0], [2, 1]])) swarm_3x2 2 2 = Inr (pos_n, 1) \<and>
      update_gbest swarm_3x2 = Inr (pos_g, 1))"
proof -
  have k: "(1::int) < 2" "2 < int (n_particles swarm_3x2)" and p: "(1::int) \<le> 2"
    by (simp_all add: swarm_3x2_def)
  have q: "const_query (Idx2 [[0, 1], [1, 0], [2, 1]]) (position swarm_3x2) 2 2 = Inr (Idx2 [[0, 1], [1, 0], [2, 1]])"
    by (rule const_query_answer)
  have m: "Min (set (pbest_cost swarm_3x2)) = 1" by (simp add: swarm_3x2_def)
  from neighborhood_cost_equals_global_cost
    [where query = "const_query (Idx2 [[0, 1], [1, 0], [2, 1]])" and s = swarm_3x2
      and p = 2 and k = 2, OF consistent_shapes_swarm_3x2 distinct_swarm_3x2 k p q knn_swarm_3x2]
  have "\<exists>pos_n pos_g.
      update_gbest_neighborhood (const_query (Idx2 [[0, 1], [1, 0], [2, 1]])) swarm_3x2 2 2 = Inr (pos_n, 1) \<and>
      update_gbest swarm_3x2 = Inr (pos_g, 1)"
    unfolding m .
  with consistent_shapes_swarm_3x2 distinct_swarm_3x2 k p q knn_swarm_3x2 m
  show ?thesis by blast
qed

text \<open>
  Claim C10, as stated: \<open>update_gbest_neighborhood\<close> fails with a configuration error,
  and returns nothing, whenever \<open>k\<close> is outside \<open>[1, n_particles)\<close> or \<open>p\<close> is not 1 or 2.
  The function checks neither argument. With \<open>k = n_particles = 2\<close> the query lists both
  particles for each particle and the call returns a result; so it does with \<open>p = 3\<close>.
\<close>

theorem update_gbest_neighborhood_accepts_k_eq_n:
  "int (n_particles swarm_2x1) \<le> 2 \<and>
   knn_result (position swarm_2x1) 2 2 (Idx2 [[0, 1], [1, 0]]) \<and>
   update_gbest_neighborhood (const_query (Idx2 [[0, 1], [1, 0]])) swarm_2x1 2 2 = Inr ([0], 1) \<and>
   knn_result (position swarm_3x2) 3 2 (Idx2 [[0, 1], [1, 0], [2, 1]]) \<and>
   update_gbest_neighborhood (const_query (Idx2 [[0, 1], [1, 0], [2, 1]])) swarm_3x2 3 2 = Inr ([0, 1], 1)"
  using knn_swarm_2x1_k2 neighborhood_swarm_2x1_k2 knn_swarm_3x2_p3
    neighborhood_swarm_3x2(1) [of 3]
  by (simp add: swarm_2x1_def)

text \<open>
  Claim C10, amended. \<open>update_gbest_neighborhood\<close> has no check of \<open>k\<close> or \<open>p\<close> of its
  own. When the nearest-neighbour query fails, the call fails with the error of the
  query and returns nothing. When the query answers with \<open>k\<close> nearest neighbours of every
  particle of a non-empty swarm, for whatever \<open>k\<close> and \<open>p\<close>, the call returns a result.
\<close>

theorem update_gbest_neighborhood_no_range_check:
  "(query (position s) p k = Inl e \<longrightarrow> update_gbest_neighborhood query s p k = Inl e) \<and>
   (consistent_shapes s \<and> 0 < n_particles s \<and> query (position s) p k = Inr idx \<and>
    knn_result (position s) p k idx \<longrightarrow> (\<exists>r. update_gbest_neighborhood query s p k = Inr r))"
proof (intro conjI impI)
  assume "query (position s) p k = Inl e"
  then show "update_gbest_neighborhood query s p k = Inl e"
    by (simp add: update_gbest_neighborhood_def)
next
  assume a: "consistent_shapes s \<and> 0 < n_particles s \<and> query (position s) p k = Inr idx \<and>
    knn_result (position s) p k idx"
  let ?n = "n_particles s"
  from a have lens: "length (position s) = ?n" "length (pbest_cost s) = ?n"
    "length (pbest_pos s) = ?n" and n: "0 < ?n" and q: "query (position s) p k = Inr idx"
    and knn: "knn_result (position s) p k idx"
    by (simp_all add: consistent_shapes_def has_shape_def)
  show "\<exists>r. update_gbest_neighborhood query s p k = Inr r"
  proof (cases "k = 1")
    case True
    with knn obtain js where idx: "idx = Idx1 js" and lj: "length js = length (position s)"
      and rows: "\<forall>i<length (position s). knn_row (position s) p 1 i [js ! i]"
      by (auto elim: knn_result_Idx1)
    have ne: "js \<noteq> []" using lj lens n by auto
    have valid: "list_all (\<lambda>j. j < length (pbest_cost s)) js"
      using rows lj lens by (auto simp: list_all_length knn_row_def)
    have pos: "pbest_pos s \<noteq> []" using lens n by auto
    from q have "query (position s) p 1 = Inr (Idx1 js)" by (simp add: True idx)
    from neighborhood_result_k1(2) [where query = query and s = s and p = p, OF this ne valid pos]
      True show ?thesis by blast
  next
    case False
    from knn False obtain rows where idx: "idx = Idx2 rows" and k: "1 < k"
      and lr: "length rows = length (position s)"
      and rows: "\<forall>i<length (position s). knn_row (position s) p (nat k) i (rows ! i)"
      by (rule knn_result_Idx2)
    from k have "0 < nat k" by simp
    from knn_rows_valid [OF lr this rows] lens
    have valid: "\<forall>row\<in>set rows. row \<noteq> [] \<and> (\<forall>j\<in>set row. j < length (pbest_cost s))"
      by simp
    have ne: "rows \<noteq> []" using lr lens n by auto
    have len: "length rows \<le> length (pbest_pos s)" using lr lens by simp
    from q have "query (position s) p k = Inr (Idx2 rows)" by (simp add: idx)
    from neighborhood_result_rows
      [where query = query and s = s and p = p, OF False this ne valid len refl refl]
    show ?thesis by blast
  qed
qed

theorem update_gbest_neighborhood_no_range_check_witness:
  "error_query ValueError (position swarm_2x1) 2 0 = Inl ValueError \<and>
   update_gbest_neighborhood (error_query ValueError) swarm_2x1 2 0 = Inl ValueError \<and>
   consistent_shapes swarm_2x1 \<and> 0 < n_particles swarm_2x1 \<and>
   const_query (Idx2 [[0, 1], [1, 0]]) (position swarm_2x1) 2 2 = Inr (Idx2 [[0, 1], [1, 0]]) \<and>
   knn_result (position swarm_2x1) 2 2 (Idx2 [[0, 1], [1, 0]]) \<and>
   (\<exists>r. update_gbest_neighborhood (const_query (Idx2 [[0, 1], [1, 0]])) swarm_2x1 2 2 = Inr r)"
proof -
  have e: "error_query ValueError (position swarm_2x1) 2 0 = Inl ValueError"
    by (simp add: error_query_def)
  have n: "0 < n_particles swarm_2x1" by (simp add: swarm_2x1_def)
  have q: "const_query (Idx2 [[0, 1], [1, 0]]) (position swarm_2x1) 2 2 = Inr (Idx2 [[0, 1], [1, 0]])"
    by (rule const_query_answer)
  from update_gbest_neighborhood_no_range_check
    [where query = "error_query ValueError" and s = swarm_2x1 and p = 2 and k = 0
      and e = ValueError] e
  have "update_gbest_neighborhood (error_query ValueError) swarm_2x1 2 0 = Inl ValueError"
    by blast
  moreover from update_gbest_neighborhood_no_range_check
    [where query = "const_query (Idx2 [[0, 1], [1, 0]])" and s = swarm_2x1 and p = 2 and k = 2
      and idx = "(Idx2 [[0, 1], [1, 0]])"] consistent_shapes_swarm_2x1 n q knn_swarm_2x1_k2
  have "\<exists>r. update_gbest_neighborhood (const_query (Idx2 [[0, 1], [1, 0]])) swarm_2x1 2 2 = Inr r"
    by blast
  ultimately show ?thesis
    using e consistent_shapes_swarm_2x1 n q knn_swarm_2x1_k2 by blast
qed

text \<open>
  Claim C6 says that with \<open>k = 1\<close> every particle is its own and only neighbour, so that
  the operator acts on every particle's own personal best. In the code the argmin is
  taken along an axis of length one, so \<open>best_neighbor\<close> is particle 0 for every
  particle, and the result is the personal best of particle 0 whatever the other
  particles hold. In the example particle 1 is its own nearest neighbour and has the
  lower cost 1, and the call returns the cost 2 and the position of particle 0.
\<close>

theorem update_gbest_neighborhood_k1_particle_0:
  "knn_result (position swarm_2x1) 2 1 (Idx1 [0, 1]) \<and>
   best_neighbor swarm_2x1 1 (Idx1 [0, 1]) = Inr [0, 0] \<and>
   update_gbest_neighborhood (const_query (Idx1 [0, 1])) swarm_2x1 2 1 = Inr ([0], 2) \<and>
   pbest_cost swarm_2x1 = [2, 1]"
  using knn_swarm_2x1_k1 neighborhood_swarm_2x1_k1
  by (simp add: swarm_2x1_def)

end
